theory Spec2Isabelle
  imports Main "HOL-Library.AList"
begin

section \<open>Fallback buffer (fallback/buffer\_manager.py)\<close>

text \<open>
  Exceptions are values of Python's \<^verbatim>\<open>Exception\<close> class, which is what every
  \<^verbatim>\<open>except Exception\<close> clause of the sources catches; \<open>exc_str e\<close> is \<^verbatim>\<open>str(e)\<close>.
  A call that may raise returns \<open>Inl e\<close> when it raised \<open>e\<close> and \<open>Inr ()\<close> when it
  returned. The interpreter's exit signals, which are not instances of \<^verbatim>\<open>Exception\<close>
  (\<^verbatim>\<open>KeyboardInterrupt\<close>, \<^verbatim>\<open>SystemExit\<close>), are outside the model.
\<close>

datatype py_exception = PyException (exc_str: string)

text \<open>
  \<^verbatim>\<open>BufferManager\<close>: \<open>capacity\<close> is the constructor's argument (a count, 500 by default),
  \<open>buffer\<close> the list of messages, oldest first. The lock only serialises \<^verbatim>\<open>add\<close> and
  \<^verbatim>\<open>flush\<close>; each of them is modelled as one atomic state change.
\<close>

record 'm BufferManager =
  capacity :: nat
  buffer :: "'m list"

definition BufferManager_init :: "nat \<Rightarrow> 'm BufferManager" where
  "BufferManager_init cap = \<lparr>capacity = cap, buffer = []\<rparr>"

text \<open>
  \<^verbatim>\<open>add\<close>: append, then \<^verbatim>\<open>pop(0)\<close> when the length exceeds the capacity. The list is
  not empty at the \<^verbatim>\<open>pop(0)\<close>, so it cannot raise; \<open>tl\<close> removes index 0.
\<close>

definition BufferManager_add :: "'m \<Rightarrow> 'm BufferManager \<Rightarrow> 'm BufferManager" where
  "BufferManager_add message b =
     (let appended = buffer b @ [message]
      in if length appended > capacity b
         then b\<lparr>buffer := tl appended\<rparr>
         else b\<lparr>buffer := appended\<rparr>)"

text \<open>
  \<^verbatim>\<open>flush\<close>: the loop over \<^verbatim>\<open>list(self.buffer)\<close>. The callback acts on a state \<open>'w\<close>
  of its own. The loop returns, beside that state, the calls it made in order: each
  message the callback was invoked on, with what the invocation did. \<^verbatim>\<open>break\<close> ends the
  loop at the first call that raised.
\<close>

fun flush_loop ::
  "('m \<Rightarrow> 'w \<Rightarrow> (py_exception + unit) \<times> 'w) \<Rightarrow> 'm list \<Rightarrow> 'w \<Rightarrow>
     ('m \<times> (py_exception + unit)) list \<times> 'w" where
  "flush_loop target_callback [] w = ([], w)"
| "flush_loop target_callback (msg # rest) w =
     (case target_callback msg w of
        (Inl e, w1) \<Rightarrow> ([(msg, Inl e)], w1)
      | (Inr u, w1) \<Rightarrow>
          (case flush_loop target_callback rest w1 of
             (calls, w2) \<Rightarrow> ((msg, Inr u) # calls, w2)))"

definition BufferManager_flush ::
  "('m \<Rightarrow> 'w \<Rightarrow> (py_exception + unit) \<times> 'w) \<Rightarrow> 'm BufferManager \<Rightarrow> 'w \<Rightarrow>
     'm BufferManager \<times> ('m \<times> (py_exception + unit)) list \<times> 'w" where
  "BufferManager_flush target_callback b w =
     (case flush_loop target_callback (buffer b) w of
        (calls, w') \<Rightarrow> (b\<lparr>buffer := []\<rparr>, calls, w'))"

text \<open>
  The callback's state after it has been called on the messages \<open>ms\<close>, one call per
  message, in order, each call starting in the state the previous one left.
\<close>

definition callback_state ::
  "('m \<Rightarrow> 'w \<Rightarrow> (py_exception + unit) \<times> 'w) \<Rightarrow> 'm list \<Rightarrow> 'w \<Rightarrow> 'w" where
  "callback_state target_callback ms w = fold (\<lambda>m v. snd (target_callback m v)) ms w"

section \<open>Fallback handler and safe logger (fallback/fallback\_handler.py, fallback/safe\_logger.py)\<close>

text \<open>
  \<^verbatim>\<open>FallbackHandler\<close>: \<open>queue\<close> holds the records put and not yet taken by the worker,
  oldest first. \<^verbatim>\<open>emit\<close> puts one record, prefixed with the current time as
  \<^verbatim>\<open>time.strftime\<close> formats it (the argument \<open>timestamp\<close>); the queue is unbounded, so the
  put neither blocks nor raises.
\<close>

record FallbackHandler =
  mode :: string
  backup_file :: string
  queue :: "string list"
  flush_interval :: nat

definition FallbackHandler_init :: "string \<Rightarrow> FallbackHandler" where
  "FallbackHandler_init m =
     \<lparr>mode = m, backup_file = ''fallback.log'', queue = [], flush_interval = 5\<rparr>"

definition FallbackHandler_emit :: "string \<Rightarrow> string \<Rightarrow> FallbackHandler \<Rightarrow> FallbackHandler" where
  "FallbackHandler_emit timestamp rec h =
     h\<lparr>queue := queue h @ [''['' @ timestamp @ ''] '' @ rec]\<rparr>"

text \<open>
  \<^verbatim>\<open>SafeLogger\<close>: \<open>main_logger\<close> is the state of the wrapped logger, whose \<^verbatim>\<open>log\<close> method
  is the argument \<open>main_log\<close> of \<open>SafeLogger_log\<close>; \<open>buffer_manager\<close> is the attribute
  \<^verbatim>\<open>buffer\<close>. The result says whether \<^verbatim>\<open>SafeLogger.log\<close> itself raised.
\<close>

record 'p SafeLogger =
  main_logger :: 'p
  fallback :: FallbackHandler
  buffer_manager :: "string BufferManager"

definition SafeLogger_init :: "'p \<Rightarrow> string \<Rightarrow> 'p SafeLogger" where
  "SafeLogger_init logger_state fallback_mode =
     \<lparr>main_logger = logger_state,
      fallback = FallbackHandler_init fallback_mode,
      buffer_manager = BufferManager_init 500\<rparr>"

definition SafeLogger_log ::
  "(string \<Rightarrow> string \<Rightarrow> 'p \<Rightarrow> (py_exception + unit) \<times> 'p) \<Rightarrow> string \<Rightarrow>
     string \<Rightarrow> string \<Rightarrow> 'p SafeLogger \<Rightarrow> (py_exception + unit) \<times> 'p SafeLogger" where
  "SafeLogger_log main_log timestamp level msg self =
     (case main_log level msg (main_logger self) of
        (Inr u, p) \<Rightarrow> (Inr (), self\<lparr>main_logger := p\<rparr>)
      | (Inl e, p) \<Rightarrow>
          (Inr (),
           self\<lparr>main_logger := p,
                buffer_manager := BufferManager_add msg (buffer_manager self),
                fallback := FallbackHandler_emit timestamp
                  (''[MAIN LOGGER ERROR: '' @ exc_str e @ ''] '' @ msg) (fallback self)\<rparr>))"

section \<open>Notification dispatch and retry (notifications/dispatcher.py, notifications/retry\_policy.py)\<close>

text \<open>
  The effects of the notification code are recorded in order in \<open>events\<close>: a call of a
  method of the module-level \<^verbatim>\<open>logger\<close> (component, method, message, keyword fields), a
  \<^verbatim>\<open>time.sleep\<close> with its duration, and a call of a channel's \<^verbatim>\<open>send\<close> with the value it
  returned. The module \<^verbatim>\<open>logger\<close> is not part of the sources; its calls are taken to
  return. \<open>ext\<close> is whatever state the channels act on.
\<close>

datatype log_value = StrVal string | IntVal int

datatype 'ch event =
    Log string string string "(string \<times> log_value) list"
  | Sleep nat
  | Sent 'ch bool

record ('ch, 'x) world =
  events :: "'ch event list"
  ext :: 'x

definition emit_event :: "'ch event \<Rightarrow> ('ch, 'x) world \<Rightarrow> ('ch, 'x) world" where
  "emit_event ev w = w\<lparr>events := events w @ [ev]\<rparr>"

record NotificationMessage =
  msg_id :: string
  msg_level :: string
  msg_title :: string
  msg_text :: string
  msg_correlation_id :: "string option"
  msg_timestamp :: string
  msg_metadata :: "(string \<times> string) list"

text \<open>
  \<^verbatim>\<open>with_retry(retries, delay)(func)\<close>: the loop over \<^verbatim>\<open>range(1, retries + 1)\<close>. Beside
  the wrapper's result and the state, the loop returns the value of each invocation of
  \<open>func\<close> it made, in order.
\<close>

fun retry_loop ::
  "nat \<Rightarrow> (('ch, 'x) world \<Rightarrow> bool \<times> ('ch, 'x) world) \<Rightarrow> nat list \<Rightarrow> ('ch, 'x) world \<Rightarrow>
     bool \<times> bool list \<times> ('ch, 'x) world" where
  "retry_loop delay func [] w =
     (False, [],
      emit_event (Log ''notifications.retry'' ''error'' ''Notification failed after retries'' []) w)"
| "retry_loop delay func (attempt # rest) w =
     (case func w of
        (success, w1) \<Rightarrow>
          if success then (True, [success], w1)
          else
            (case retry_loop delay func rest
                    (emit_event (Sleep delay)
                       (emit_event (Log ''notifications.retry'' ''warn'' ''Retrying notification''
                                      [(''attempt'', IntVal (int attempt))]) w1)) of
               (result, attempts, w2) \<Rightarrow> (result, success # attempts, w2)))"

definition with_retry_attempts ::
  "nat \<Rightarrow> nat \<Rightarrow> (('ch, 'x) world \<Rightarrow> bool \<times> ('ch, 'x) world) \<Rightarrow> ('ch, 'x) world \<Rightarrow>
     bool \<times> bool list \<times> ('ch, 'x) world" where
  "with_retry_attempts retries delay func w = retry_loop delay func [1 ..< retries + 1] w"

definition with_retry ::
  "nat \<Rightarrow> nat \<Rightarrow> (('ch, 'x) world \<Rightarrow> bool \<times> ('ch, 'x) world) \<Rightarrow> ('ch, 'x) world \<Rightarrow>
     bool \<times> ('ch, 'x) world" where
  "with_retry retries delay func w =
     (case with_retry_attempts retries delay func w of (result, attempts, w') \<Rightarrow> (result, w'))"

text \<open>
  \<^verbatim>\<open>NotificationDispatcher\<close>: \<open>channels\<close> maps a level to its list of channels. A channel
  is a value of type \<open>'ch\<close>; its \<^verbatim>\<open>send\<close> method is \<open>send ch\<close>, which returns a truth value
  and changes the channels' state, and \<open>str_of ch\<close> is \<^verbatim>\<open>str(channel)\<close>.
\<close>

record 'ch NotificationDispatcher =
  channels :: "string \<rightharpoonup> 'ch list"

definition NotificationDispatcher_init :: "'ch NotificationDispatcher" where
  "NotificationDispatcher_init =
     \<lparr>channels = [''INFO'' \<mapsto> [], ''WARN'' \<mapsto> [], ''ALERT'' \<mapsto> [], ''ERROR'' \<mapsto> []]\<rparr>"

definition register_channel ::
  "('ch \<Rightarrow> string) \<Rightarrow> string \<Rightarrow> 'ch \<Rightarrow> 'ch NotificationDispatcher \<Rightarrow> ('ch, 'x) world \<Rightarrow>
     'ch NotificationDispatcher \<times> ('ch, 'x) world" where
  "register_channel str_of level channel self w =
     (let chans = (case channels self level of
                     None \<Rightarrow> (channels self)(level \<mapsto> [])
                   | Some l \<Rightarrow> channels self);
          chans' = (case chans level of
                      None \<Rightarrow> chans
                    | Some l \<Rightarrow> chans(level \<mapsto> l @ [channel]))
      in (self\<lparr>channels := chans'\<rparr>,
          emit_event (Log ''notifications.dispatcher'' ''info''
                        (''Channel registered for level='' @ level)
                        [(''channel'', StrVal (str_of channel))]) w))"

text \<open>\<^verbatim>\<open>self.channels.get(level, [])\<close>\<close>

definition channels_get :: "'ch NotificationDispatcher \<Rightarrow> string \<Rightarrow> 'ch list" where
  "channels_get self level = (case channels self level of None \<Rightarrow> [] | Some l \<Rightarrow> l)"

text \<open>The loop of \<^verbatim>\<open>dispatch\<close> over the target channels, with \<open>success\<close> as accumulator.\<close>

fun send_all ::
  "('ch \<Rightarrow> NotificationMessage \<Rightarrow> 'x \<Rightarrow> bool \<times> 'x) \<Rightarrow> NotificationMessage \<Rightarrow> 'ch list \<Rightarrow>
     bool \<Rightarrow> ('ch, 'x) world \<Rightarrow> bool \<times> ('ch, 'x) world" where
  "send_all send message [] success w = (success, w)"
| "send_all send message (ch # rest) success w =
     (case send ch message (ext w) of
        (ok, x) \<Rightarrow>
          send_all send message rest (success \<and> ok)
            (emit_event (Sent ch ok) (w\<lparr>ext := x\<rparr>)))"

text \<open>The body of \<^verbatim>\<open>dispatch\<close>, one attempt, before the decorator is applied.\<close>

definition dispatch_attempt ::
  "('ch \<Rightarrow> NotificationMessage \<Rightarrow> 'x \<Rightarrow> bool \<times> 'x) \<Rightarrow> 'ch NotificationDispatcher \<Rightarrow>
     NotificationMessage \<Rightarrow> ('ch, 'x) world \<Rightarrow> bool \<times> ('ch, 'x) world" where
  "dispatch_attempt send self message w =
     (let targets = channels_get self (msg_level message)
      in if targets = []
         then (False,
               emit_event (Log ''notifications.dispatcher'' ''warn''
                             ''No channels registered for level''
                             [(''level'', StrVal (msg_level message))]) w)
         else send_all send message targets True w)"

text \<open>\<^verbatim>\<open>dispatch\<close> as the class exposes it: decorated with \<^verbatim>\<open>with_retry(retries=3, delay=3)\<close>.\<close>

definition dispatch ::
  "('ch \<Rightarrow> NotificationMessage \<Rightarrow> 'x \<Rightarrow> bool \<times> 'x) \<Rightarrow> 'ch NotificationDispatcher \<Rightarrow>
     NotificationMessage \<Rightarrow> ('ch, 'x) world \<Rightarrow> bool \<times> ('ch, 'x) world" where
  "dispatch send self message w = with_retry 3 3 (dispatch_attempt send self message) w"

text \<open>The calls of \<^verbatim>\<open>send\<close> among a list of events, in order, each with its result.\<close>

fun sent_of :: "'ch event list \<Rightarrow> ('ch \<times> bool) list" where
  "sent_of [] = []"
| "sent_of (Sent ch ok # evs) = (ch, ok) # sent_of evs"
| "sent_of (ev # evs) = sent_of evs"

definition predefined_levels :: "string list" where
  "predefined_levels = [''INFO'', ''WARN'', ''ALERT'', ''ERROR'']"

text \<open>The four keys of the constructor's dictionary are present (no method removes a key).\<close>

definition has_predefined_levels :: "'ch NotificationDispatcher \<Rightarrow> bool" where
  "has_predefined_levels self = list_all (\<lambda>l. channels self l \<noteq> None) predefined_levels"

text \<open>
  The channels' state after \<^verbatim>\<open>send\<close> has been called on the channels \<open>chs\<close>, one call per
  channel, in order; and the values these calls return, each call starting in the state
  the previous one left.
\<close>

definition channels_state ::
  "('ch \<Rightarrow> NotificationMessage \<Rightarrow> 'x \<Rightarrow> bool \<times> 'x) \<Rightarrow> NotificationMessage \<Rightarrow> 'ch list \<Rightarrow>
     'x \<Rightarrow> 'x" where
  "channels_state send message chs x = fold (\<lambda>ch y. snd (send ch message y)) chs x"

fun send_results ::
  "('ch \<Rightarrow> NotificationMessage \<Rightarrow> 'x \<Rightarrow> bool \<times> 'x) \<Rightarrow> NotificationMessage \<Rightarrow> 'ch list \<Rightarrow>
     'x \<Rightarrow> bool list" where
  "send_results send message [] x = []"
| "send_results send message (ch # rest) x =
     fst (send ch message x) # send_results send message rest (snd (send ch message x))"


section \<open>Context store and scoped context (context.py)\<close>

text \<open>
  The store as one thread of control sees it: the four context variables (\<open>_ctx\<close>, with
  their defaults \<^verbatim>\<open>None\<close> and \<^verbatim>\<open>{}\<close>) and the four attributes of \<^verbatim>\<open>_thread_local\<close>, where
  \<open>None\<close> says that the attribute does not exist. A dictionary is an association list in
  insertion order, \<^verbatim>\<open>d[k] = v\<close> is \<^const>\<open>AList.update\<close>. \<open>uuid4 n\<close> is the string that the
  \<open>n\<close>-th call of \<^verbatim>\<open>str(uuid.uuid4())\<close> returns, \<open>uuid4_calls\<close> counts the calls made.
\<close>

record 'v context_store =
  correlation_id_ctx :: "string option"
  transaction_id_ctx :: "string option"
  user_id_ctx :: "string option"
  extra_fields_ctx :: "(string \<times> 'v) list"
  thread_local_correlation_id :: "string option"
  thread_local_transaction_id :: "string option"
  thread_local_user_id :: "string option"
  thread_local_extra_fields :: "(string \<times> 'v) list option"
  uuid4 :: "nat \<Rightarrow> string"
  uuid4_calls :: nat

definition initial_store :: "(nat \<Rightarrow> string) \<Rightarrow> 'v context_store" where
  "initial_store gen =
     \<lparr>correlation_id_ctx = None, transaction_id_ctx = None, user_id_ctx = None,
      extra_fields_ctx = [],
      thread_local_correlation_id = None, thread_local_transaction_id = None,
      thread_local_user_id = None, thread_local_extra_fields = None,
      uuid4 = gen, uuid4_calls = 0\<rparr>"

text \<open>Python's truth value of an \<^verbatim>\<open>Optional[str]\<close>: \<^verbatim>\<open>None\<close> and \<^verbatim>\<open>""\<close> are false.\<close>

fun truthy :: "string option \<Rightarrow> bool" where
  "truthy None = False"
| "truthy (Some s) = (s \<noteq> [])"

definition generate_correlation_id :: "'v context_store \<Rightarrow> string \<times> 'v context_store" where
  "generate_correlation_id s = (uuid4 s (uuid4_calls s), s\<lparr>uuid4_calls := Suc (uuid4_calls s)\<rparr>)"

definition set_correlation_id :: "string option \<Rightarrow> 'v context_store \<Rightarrow> string \<times> 'v context_store" where
  "set_correlation_id correlation_id s =
     (case (case correlation_id of
              None \<Rightarrow> generate_correlation_id s
            | Some given \<Rightarrow> (given, s)) of
        (cid, s1) \<Rightarrow>
          (cid, s1\<lparr>correlation_id_ctx := Some cid, thread_local_correlation_id := Some cid\<rparr>))"

definition get_correlation_id :: "'v context_store \<Rightarrow> string option" where
  "get_correlation_id s =
     (let cid = correlation_id_ctx s
      in if truthy cid then cid else thread_local_correlation_id s)"

definition clear_correlation_id :: "'v context_store \<Rightarrow> 'v context_store" where
  "clear_correlation_id s = s\<lparr>correlation_id_ctx := None, thread_local_correlation_id := None\<rparr>"

definition set_transaction_id :: "string \<Rightarrow> 'v context_store \<Rightarrow> 'v context_store" where
  "set_transaction_id transaction_id s =
     s\<lparr>transaction_id_ctx := Some transaction_id,
       thread_local_transaction_id := Some transaction_id\<rparr>"

definition get_transaction_id :: "'v context_store \<Rightarrow> string option" where
  "get_transaction_id s =
     (let tid = transaction_id_ctx s
      in if truthy tid then tid else thread_local_transaction_id s)"

definition clear_transaction_id :: "'v context_store \<Rightarrow> 'v context_store" where
  "clear_transaction_id s = s\<lparr>transaction_id_ctx := None, thread_local_transaction_id := None\<rparr>"

definition set_user_id :: "string \<Rightarrow> 'v context_store \<Rightarrow> 'v context_store" where
  "set_user_id user_id s = s\<lparr>user_id_ctx := Some user_id, thread_local_user_id := Some user_id\<rparr>"

definition get_user_id :: "'v context_store \<Rightarrow> string option" where
  "get_user_id s =
     (let uid = user_id_ctx s
      in if truthy uid then uid else thread_local_user_id s)"

definition clear_user_id :: "'v context_store \<Rightarrow> 'v context_store" where
  "clear_user_id s = s\<lparr>user_id_ctx := None, thread_local_user_id := None\<rparr>"

definition set_extra_field :: "string \<Rightarrow> 'v \<Rightarrow> 'v context_store \<Rightarrow> 'v context_store" where
  "set_extra_field key val s =
     s\<lparr>extra_fields_ctx := AList.update key val (extra_fields_ctx s),
       thread_local_extra_fields :=
         Some (AList.update key val
                 (case thread_local_extra_fields s of None \<Rightarrow> [] | Some d \<Rightarrow> d))\<rparr>"

definition get_extra_fields :: "'v context_store \<Rightarrow> (string \<times> 'v) list" where
  "get_extra_fields s =
     (let ctx_extra = extra_fields_ctx s
      in if ctx_extra \<noteq> [] then ctx_extra
         else (case thread_local_extra_fields s of None \<Rightarrow> [] | Some d \<Rightarrow> d))"

definition clear_extra_fields :: "'v context_store \<Rightarrow> 'v context_store" where
  "clear_extra_fields s =
     s\<lparr>extra_fields_ctx := [],
       thread_local_extra_fields :=
         (case thread_local_extra_fields s of None \<Rightarrow> None | Some d \<Rightarrow> Some [])\<rparr>"

text \<open>\<^verbatim>\<open>for key, value in d.items(): set_extra_field(key, value)\<close>\<close>

fun set_extra_fields_from :: "(string \<times> 'v) list \<Rightarrow> 'v context_store \<Rightarrow> 'v context_store" where
  "set_extra_fields_from [] s = s"
| "set_extra_fields_from ((key, val) # rest) s = set_extra_fields_from rest (set_extra_field key val s)"

text \<open>
  \<^verbatim>\<open>LoggingContext\<close>. The constructor sets the four \<open>prev_\<close> attributes to \<^verbatim>\<open>None\<close>;
  \<^verbatim>\<open>__enter__\<close> fills them.
\<close>

record 'v LoggingContext =
  correlation_id :: "string option"
  transaction_id :: "string option"
  user_id :: "string option"
  auto_generate_correlation :: bool
  extra_fields :: "(string \<times> 'v) list"
  prev_correlation_id :: "string option"
  prev_transaction_id :: "string option"
  prev_user_id :: "string option"
  prev_extra_fields :: "(string \<times> 'v) list option"

definition LoggingContext_init ::
  "string option \<Rightarrow> string option \<Rightarrow> string option \<Rightarrow> bool \<Rightarrow> (string \<times> 'v) list \<Rightarrow>
     'v LoggingContext" where
  "LoggingContext_init cid tid uid auto_gen extra =
     \<lparr>correlation_id = cid, transaction_id = tid, user_id = uid,
      auto_generate_correlation = auto_gen, extra_fields = extra,
      prev_correlation_id = None, prev_transaction_id = None, prev_user_id = None,
      prev_extra_fields = None\<rparr>"

definition LoggingContext_enter ::
  "'v LoggingContext \<Rightarrow> 'v context_store \<Rightarrow> 'v LoggingContext \<times> 'v context_store" where
  "LoggingContext_enter self s =
     (let self1 = self\<lparr>prev_correlation_id := get_correlation_id s,
                        prev_transaction_id := get_transaction_id s,
                        prev_user_id := get_user_id s,
                        prev_extra_fields := Some (get_extra_fields s)\<rparr>;
          s1 = (if truthy (correlation_id self) \<or> auto_generate_correlation self
                then snd (set_correlation_id (correlation_id self) s) else s);
          s2 = (case transaction_id self of
                  None \<Rightarrow> s1
                | Some tid \<Rightarrow> if tid \<noteq> [] then set_transaction_id tid s1 else s1);
          s3 = (case user_id self of
                  None \<Rightarrow> s2
                | Some uid \<Rightarrow> if uid \<noteq> [] then set_user_id uid s2 else s2)
      in (self1, set_extra_fields_from (extra_fields self) s3))"

text \<open>
  \<^verbatim>\<open>__exit__\<close>. With \<open>prev_extra_fields\<close> still \<^verbatim>\<open>None\<close> (no \<^verbatim>\<open>__enter__\<close> before), the call
  \<^verbatim>\<open>.items()\<close> raises an \<^verbatim>\<open>AttributeError\<close> after the three identifiers and the clearing are
  done; \<open>NoneType_has_no_items\<close> is the text of that error.
\<close>

definition NoneType_has_no_items :: string where
  "NoneType_has_no_items =
     [CHR 0x27] @ ''NoneType'' @ [CHR 0x27] @ '' object has no attribute '' @
     [CHR 0x27] @ ''items'' @ [CHR 0x27]"

definition LoggingContext_exit ::
  "'v LoggingContext \<Rightarrow> 'v context_store \<Rightarrow> (py_exception + unit) \<times> 'v context_store" where
  "LoggingContext_exit self s =
     (let s1 = (case prev_correlation_id self of
                  None \<Rightarrow> clear_correlation_id s
                | Some cid \<Rightarrow> if cid \<noteq> [] then snd (set_correlation_id (Some cid) s)
                              else clear_correlation_id s);
          s2 = (case prev_transaction_id self of
                  None \<Rightarrow> clear_transaction_id s1
                | Some tid \<Rightarrow> if tid \<noteq> [] then set_transaction_id tid s1
                              else clear_transaction_id s1);
          s3 = (case prev_user_id self of
                  None \<Rightarrow> clear_user_id s2
                | Some uid \<Rightarrow> if uid \<noteq> [] then set_user_id uid s2 else clear_user_id s2);
          s4 = clear_extra_fields s3
      in case prev_extra_fields self of
           None \<Rightarrow> (Inl (PyException NoneType_has_no_items), s4)
         | Some prev \<Rightarrow> (Inr (), set_extra_fields_from prev s4))"

text \<open>
  \<^verbatim>\<open>with ctx: body\<close>. The scope object is mutable and \<^verbatim>\<open>__enter__\<close> returns it, so the body
  can reach it: the body is any computation on the scope object and the store, returning
  or raising, and \<^verbatim>\<open>__exit__\<close> is called on the object as the body left it. \<^verbatim>\<open>__exit__\<close>
  runs in both cases and returns \<^verbatim>\<open>None\<close>, so what the body raised is raised again after
  it. The result carries the scope object too.
\<close>

definition with_LoggingContext ::
  "'v LoggingContext \<Rightarrow>
     ('v LoggingContext \<Rightarrow> 'v context_store \<Rightarrow>
        (py_exception + 'r) \<times> 'v LoggingContext \<times> 'v context_store) \<Rightarrow>
     'v context_store \<Rightarrow> (py_exception + 'r) \<times> 'v LoggingContext \<times> 'v context_store" where
  "with_LoggingContext ctx body s =
     (case LoggingContext_enter ctx s of
        (self1, s1) \<Rightarrow>
          (case body self1 s1 of
             (res, self2, s2) \<Rightarrow>
               (case LoggingContext_exit self2 s2 of
                  (Inl e, s3) \<Rightarrow> (Inl e, self2, s3)
                | (Inr u, s3) \<Rightarrow> (res, self2, s3))))"

text \<open>Two states of a scope object hold the same saved values.\<close>

definition same_snapshot :: "'v LoggingContext \<Rightarrow> 'v LoggingContext \<Rightarrow> bool" where
  "same_snapshot a b \<longleftrightarrow>
     prev_correlation_id a = prev_correlation_id b \<and>
     prev_transaction_id a = prev_transaction_id b \<and>
     prev_user_id a = prev_user_id b \<and>
     prev_extra_fields a = prev_extra_fields b"

text \<open>The attribute \<^verbatim>\<open>_thread_local.extra_fields\<close>, read with the default \<^verbatim>\<open>{}\<close>.\<close>

definition thread_local_extra_or_empty :: "'v context_store \<Rightarrow> (string \<times> 'v) list" where
  "thread_local_extra_or_empty s =
     (case thread_local_extra_fields s of None \<Rightarrow> [] | Some d \<Rightarrow> d)"

text \<open>
  What a getter returns after \<^verbatim>\<open>__exit__\<close> has treated the saved value \<open>prev\<close> of its
  identifier: the value itself when it is true for Python, \<^verbatim>\<open>None\<close> otherwise.
\<close>

definition restored :: "string option \<Rightarrow> string option" where
  "restored prev = (if truthy prev then prev else None)"

section \<open>Concrete collaborators for the examples\<close>

text \<open>A callback that records the messages it is given and raises on the message \<open>bad\<close>.\<close>

definition recording_callback :: "nat \<Rightarrow> nat \<Rightarrow> nat list \<Rightarrow> (py_exception + unit) \<times> nat list" where
  "recording_callback bad m seen =
     (if m = bad then Inl (PyException ''refused'') else Inr (), seen @ [m])"

text \<open>Two primary loggers: one whose \<^verbatim>\<open>log\<close> always raises, one that records what it is given.\<close>

definition failing_log ::
  "string \<Rightarrow> string \<Rightarrow> (string \<times> string) list \<Rightarrow> (py_exception + unit) \<times> (string \<times> string) list" where
  "failing_log level msg written = (Inl (PyException ''disk full''), written)"

definition working_log ::
  "string \<Rightarrow> string \<Rightarrow> (string \<times> string) list \<Rightarrow> (py_exception + unit) \<times> (string \<times> string) list" where
  "working_log level msg written = (Inr (), written @ [(level, msg)])"

text \<open>
  Channels are numbered; the channels' state counts the calls of \<^verbatim>\<open>send\<close>. The flaky
  channel fails on its first two calls and succeeds from the third on; with
  \<open>first_fails_send\<close> channel 0 always fails and every other channel succeeds.
\<close>

definition flaky_send :: "nat \<Rightarrow> NotificationMessage \<Rightarrow> nat \<Rightarrow> bool \<times> nat" where
  "flaky_send ch message n = (2 \<le> n, Suc n)"

definition first_fails_send :: "nat \<Rightarrow> NotificationMessage \<Rightarrow> nat \<Rightarrow> bool \<times> nat" where
  "first_fails_send ch message n = (ch \<noteq> 0, Suc n)"

definition channel_name :: "nat \<Rightarrow> string" where
  "channel_name ch = (if ch = 0 then ''channel-0'' else ''channel-n'')"

definition alert_message :: NotificationMessage where
  "alert_message =
     \<lparr>msg_id = ''m-1'', msg_level = ''ALERT'', msg_title = ''Fraud'', msg_text = ''Suspicious'',
      msg_correlation_id = None, msg_timestamp = ''2024-01-01T00:00:00'', msg_metadata = []\<rparr>"

definition quiet_world :: "(nat, nat) world" where
  "quiet_world = \<lparr>events = [], ext = 0\<rparr>"


definition two_alert_channels :: "nat NotificationDispatcher" where
  "two_alert_channels =
     fst (register_channel channel_name ''ALERT'' 1
            (fst (register_channel channel_name ''ALERT'' 0 NotificationDispatcher_init quiet_world))
            quiet_world)"

text \<open>A generator of identifiers and some bodies of scopes.\<close>

definition numbered_uuid :: "nat \<Rightarrow> string" where
  "numbered_uuid n = ''00000000-0000-4000-8000-'' @ replicate n (CHR ''1'')"

definition empty_store :: "string context_store" where
  "empty_store = initial_store numbered_uuid"

definition body_set_Y ::
  "string LoggingContext \<Rightarrow> string context_store \<Rightarrow>
     (py_exception + unit) \<times> string LoggingContext \<times> string context_store" where
  "body_set_Y self s = (Inr (), self, snd (set_correlation_id (Some ''Y'') s))"

definition body_raising ::
  "string LoggingContext \<Rightarrow> string context_store \<Rightarrow>
     (py_exception + unit) \<times> string LoggingContext \<times> string context_store" where
  "body_raising self s =
     (Inl (PyException ''ValueError''), self,
      set_extra_field ''inner'' ''1'' (set_user_id ''u-2'' (snd (set_correlation_id (Some ''Y'') s))))"

text \<open>
  A store in which the correlation identifier is \<^verbatim>\<open>"A"\<close>, no transaction identifier is
  set, the user identifier is set to the empty string, and one extra field is set; a body
  that opens a scope on an instance of its own and afterwards reads the correlation
  identifier.
\<close>

definition example_store :: "string context_store" where
  "example_store =
     set_extra_field ''k'' ''v'' (set_user_id [] (snd (set_correlation_id (Some ''A'') empty_store)))"

definition body_nested ::
  "string LoggingContext \<Rightarrow> string context_store \<Rightarrow>
     (py_exception + string option) \<times> string LoggingContext \<times> string context_store" where
  "body_nested self s =
     (case with_LoggingContext
             (LoggingContext_init (Some ''B'') None None True [(''inner'', ''1'')]) body_set_Y s of
        (Inl e, inner, s') \<Rightarrow> (Inl e, self, s')
      | (Inr u, inner, s') \<Rightarrow> (Inr (get_correlation_id s'), self, s'))"

text \<open>
  The program \<^verbatim>\<open>c = LoggingContext(correlation_id="X", inner="1")\<close>,
  \<^verbatim>\<open>with c: with c: pass\<close>, run in a store with correlation identifier \<^verbatim>\<open>"A"\<close> and the
  extra field \<^verbatim>\<open>k\<close>: the body of the outer statement enters the same object again.
\<close>

definition body_pass ::
  "string LoggingContext \<Rightarrow> string context_store \<Rightarrow>
     (py_exception + unit) \<times> string LoggingContext \<times> string context_store" where
  "body_pass self s = (Inr (), self, s)"

definition body_reenter ::
  "string LoggingContext \<Rightarrow> string context_store \<Rightarrow>
     (py_exception + unit) \<times> string LoggingContext \<times> string context_store" where
  "body_reenter self s = with_LoggingContext self body_pass s"

definition scope_X :: "string LoggingContext" where
  "scope_X = LoggingContext_init (Some ''X'') None None True [(''inner'', ''1'')]"

definition store_A :: "string context_store" where
  "store_A = set_extra_field ''k'' ''v'' (snd (set_correlation_id (Some ''A'') empty_store))"


section \<open>Properties of the fallback buffer\<close>

lemma BufferManager_add_content:
  "length (buffer b) \<le> capacity b \<Longrightarrow>
     capacity (BufferManager_add m b) = capacity b \<and>
     buffer (BufferManager_add m b) =
       drop (Suc (length (buffer b)) - capacity b) (buffer b @ [m])"
  by (cases "buffer b") (auto simp: BufferManager_add_def Let_def Suc_diff_le)

lemma fold_BufferManager_add_content:
  "length (buffer b) \<le> capacity b \<Longrightarrow>
     capacity (fold BufferManager_add ms b) = capacity b \<and>
     buffer (fold BufferManager_add ms b) =
       drop (length (buffer b) + length ms - capacity b) (buffer b @ ms)"
proof (induction ms arbitrary: b)
  case Nil
  then show ?case by simp
next
  case (Cons m ms)
  let ?b = "BufferManager_add m b"
  let ?k = "Suc (length (buffer b)) - capacity b"
  from BufferManager_add_content[OF Cons.prems, of m]
  have c: "capacity ?b = capacity b"
    and bb: "buffer ?b = drop ?k (buffer b @ [m])" by auto
  have len: "length (buffer ?b) \<le> capacity ?b"
    using Cons.prems by (simp add: bb c)
  have kle: "?k \<le> length (buffer b @ [m])" by simp
  have "drop ?k ((buffer b @ [m]) @ ms) = drop ?k (buffer b @ [m]) @ ms"
    using kle by (simp only: drop_append) simp
  then have app: "buffer ?b @ ms = drop ?k (buffer b @ m # ms)"
    by (simp add: bb)
  have ar: "length (buffer ?b) + length ms - capacity b + ?k =
            length (buffer b) + length (m # ms) - capacity b"
    using Cons.prems by (simp add: bb)
  have "buffer (fold BufferManager_add (m # ms) b) =
        drop (length (buffer ?b) + length ms - capacity b) (buffer ?b @ ms)"
    using Cons.IH[OF len] by (simp add: c)
  also have "\<dots> = drop (length (buffer ?b) + length ms - capacity b + ?k) (buffer b @ m # ms)"
    by (simp only: app drop_drop)
  also have "\<dots> = drop (length (buffer b) + length (m # ms) - capacity b) (buffer b @ m # ms)"
    by (simp only: ar)
  finally show ?case using Cons.IH[OF len] by (simp add: c)
qed

text \<open>
  Claim C7. A buffer created with capacity \<open>c\<close> holds at most \<open>c\<close> messages after any
  number \<open>k\<close> of the additions; after all \<open>n\<close> additions it holds exactly the last
  \<open>min n c\<close> messages added, in insertion order. With capacity 3, adding five messages
  leaves the last three.
\<close>

theorem BufferManager_fifo_eviction:
  "length (buffer (fold BufferManager_add (take k ms) (BufferManager_init c))) \<le> c \<and>
   buffer (fold BufferManager_add ms (BufferManager_init c)) =
     drop (length ms - min (length ms) c) ms \<and>
   buffer (fold BufferManager_add [m1, m2, m3, m4, m5] (BufferManager_init 3)) = [m3, m4, m5]"
proof -
  have i: "length (buffer (BufferManager_init c :: 'a BufferManager))
             \<le> capacity (BufferManager_init c :: 'a BufferManager)"
    by (simp add: BufferManager_init_def)
  have a: "length (buffer (fold BufferManager_add (take k ms) (BufferManager_init c))) \<le> c"
    using fold_BufferManager_add_content[OF i, of "take k ms"]
    by (simp add: BufferManager_init_def)
  have b: "buffer (fold BufferManager_add ms (BufferManager_init c)) =
             drop (length ms - min (length ms) c) ms"
    using fold_BufferManager_add_content[OF i, of ms]
    by (simp add: BufferManager_init_def min_def)
  have c: "buffer (fold BufferManager_add [m1, m2, m3, m4, m5] (BufferManager_init 3))
             = [m3, m4, m5]"
    by (simp add: BufferManager_init_def BufferManager_add_def)
  from a b c show ?thesis by blast
qed

lemma flush_loop_calls:
  "flush_loop cb ms w = (calls, w') \<Longrightarrow>
     map fst calls = take (length calls) ms \<and>
     (\<forall>c \<in> set (butlast calls). \<not> isl (snd c)) \<and>
     ((\<forall>c \<in> set calls. \<not> isl (snd c)) \<longrightarrow> map fst calls = ms) \<and>
     (map fst calls \<noteq> ms \<longrightarrow> calls \<noteq> [] \<and> isl (snd (last calls)))"
proof (induction ms arbitrary: w calls w')
  case Nil
  then show ?case by simp
next
  case (Cons m ms)
  obtain r w1 where cb: "cb m w = (r, w1)" by (cases "cb m w")
  show ?case
  proof (cases r)
    case (Inl e)
    with cb Cons.prems show ?thesis by auto
  next
    case (Inr u)
    obtain calls2 w2 where fl: "flush_loop cb ms w1 = (calls2, w2)"
      by (cases "flush_loop cb ms w1")
    from Cons.IH[OF fl] Cons.prems cb Inr fl show ?thesis
      by (auto split: if_splits)
  qed
qed

lemma callback_state_Cons:
  "callback_state cb (m # ms) w = callback_state cb ms (snd (cb m w))"
  by (simp add: callback_state_def)

lemma callback_state_Nil: "callback_state cb [] w = w"
  by (simp add: callback_state_def)

lemma flush_loop_results:
  "flush_loop cb ms w = (calls, w') \<Longrightarrow>
     (\<forall>i < length calls.
        snd (calls ! i) = fst (cb (ms ! i) (callback_state cb (take i ms) w))) \<and>
     w' = callback_state cb (take (length calls) ms) w"
proof (induction ms arbitrary: w calls w')
  case Nil
  then show ?case by (simp add: callback_state_Nil)
next
  case (Cons m ms)
  obtain r w1 where cb: "cb m w = (r, w1)" by (cases "cb m w")
  show ?case
  proof (cases r)
    case (Inl e)
    with cb Cons.prems have c: "calls = [(m, Inl e)]" and w: "w' = w1" by auto
    show ?thesis by (simp add: c w cb Inl callback_state_Cons callback_state_Nil)
  next
    case (Inr u)
    obtain calls2 w2 where fl: "flush_loop cb ms w1 = (calls2, w2)"
      by (cases "flush_loop cb ms w1")
    from Cons.prems cb Inr fl have c: "calls = (m, Inr u) # calls2" and w: "w' = w2" by auto
    from Cons.IH[OF fl] have ih1: "\<forall>i < length calls2.
        snd (calls2 ! i) = fst (cb (ms ! i) (callback_state cb (take i ms) w1))"
      and ih2: "w2 = callback_state cb (take (length calls2) ms) w1" by blast+
    have "\<forall>i < length calls.
        snd (calls ! i) = fst (cb ((m # ms) ! i) (callback_state cb (take i (m # ms)) w))"
    proof (intro allI impI)
      fix i assume i: "i < length calls"
      show "snd (calls ! i) = fst (cb ((m # ms) ! i) (callback_state cb (take i (m # ms)) w))"
      proof (cases i)
        case 0
        then show ?thesis by (simp add: c cb Inr callback_state_Nil)
      next
        case (Suc j)
        with i c have "j < length calls2" by simp
        with ih1 show ?thesis by (simp add: Suc c callback_state_Cons cb)
      qed
    qed
    moreover have "w' = callback_state cb (take (length calls) (m # ms)) w"
      by (simp add: w c ih2 callback_state_Cons cb)
    ultimately show ?thesis by blast
  qed
qed

text \<open>
  Claim C4. \<^verbatim>\<open>flush\<close> calls the callback on a prefix of the buffer, in insertion order
  and once per message: the \<open>i\<close>-th call is on the \<open>i\<close>-th buffered message, in the state
  the callback was left in by the calls on the messages before it, and what is recorded for
  it is what the callback did there; the state afterwards is the one left by exactly these
  calls. Every call but the last one returned; when no call raised, the prefix is the whole
  buffer; when the prefix is shorter than the buffer, its last call raised (the messages
  after it are not attempted). In every case the buffer is empty afterwards, so nothing is
  buffered again.
\<close>

theorem BufferManager_flush_stops_and_clears:
  "BufferManager_flush target_callback b w = (b', calls, w') \<Longrightarrow>
     b' = b\<lparr>buffer := []\<rparr> \<and>
     buffer b' = [] \<and>
     map fst calls = take (length calls) (buffer b) \<and>
     (\<forall>i < length calls.
        snd (calls ! i) =
          fst (target_callback (buffer b ! i)
                 (callback_state target_callback (take i (buffer b)) w))) \<and>
     w' = callback_state target_callback (take (length calls) (buffer b)) w \<and>
     (\<forall>c \<in> set (butlast calls). \<not> isl (snd c)) \<and>
     ((\<forall>c \<in> set calls. \<not> isl (snd c)) \<longrightarrow> map fst calls = buffer b) \<and>
     (map fst calls \<noteq> buffer b \<longrightarrow> calls \<noteq> [] \<and> isl (snd (last calls)))"
proof -
  assume fl: "BufferManager_flush target_callback b w = (b', calls, w')"
  obtain cs w1 where loop: "flush_loop target_callback (buffer b) w = (cs, w1)"
    by (cases "flush_loop target_callback (buffer b) w")
  from fl loop have b': "b' = b\<lparr>buffer := []\<rparr>" and cs: "cs = calls" and w1: "w1 = w'"
    by (simp_all add: BufferManager_flush_def)
  have cleared: "buffer b' = []" by (simp add: b')
  from flush_loop_calls[OF loop] flush_loop_results[OF loop] b' cleared
  show ?thesis unfolding cs w1 by blast
qed

text \<open>
  The theorem at a buffer of three messages whose callback raises on the second: two calls,
  the third message is never passed on (the callback has seen the first two only), the
  buffer is empty.
\<close>

theorem BufferManager_flush_witness:
  "BufferManager_flush (recording_callback 2) \<lparr>capacity = 3, buffer = [1, 2, 3]\<rparr> [] =
     (\<lparr>capacity = 3, buffer = []\<rparr>, [(1, Inr ()), (2, Inl (PyException ''refused''))], [1, 2]) \<and>
   buffer \<lparr>capacity = 3, buffer = ([] :: nat list)\<rparr> = [] \<and>
   map fst [(1::nat, Inr ()), (2, Inl (PyException ''refused''))] = take 2 [1, 2, 3] \<and>
   [1, 2] = callback_state (recording_callback 2) (take 2 [1, 2, 3]) [] \<and>
   isl (snd (last [(1::nat, Inr ()), (2, Inl (PyException ''refused''))]))"
proof -
  have h: "BufferManager_flush (recording_callback 2) \<lparr>capacity = 3, buffer = [1, 2, 3]\<rparr> [] =
     (\<lparr>capacity = 3, buffer = []\<rparr>, [(1, Inr ()), (2, Inl (PyException ''refused''))], [1, 2])"
    by (simp add: BufferManager_flush_def recording_callback_def)
  note t = BufferManager_flush_stops_and_clears[OF h]
  from t have st: "[1, 2] = callback_state (recording_callback 2)
      (take (length [(1::nat, Inr () :: py_exception + unit), (2, Inl (PyException ''refused''))])
         (buffer \<lparr>capacity = 3, buffer = [1, 2, 3]\<rparr>)) []"
    by blast
  from t have pre: "map fst [(1::nat, Inr () :: py_exception + unit), (2, Inl (PyException ''refused''))] =
      take (length [(1::nat, Inr () :: py_exception + unit), (2, Inl (PyException ''refused''))])
        (buffer \<lparr>capacity = 3, buffer = [1, 2, 3]\<rparr>)"
    by blast
  from st have st': "[1, 2] = callback_state (recording_callback 2) (take 2 [1, 2, 3]) []"
    by simp
  from pre have pre': "map fst [(1::nat, Inr () :: py_exception + unit), (2, Inl (PyException ''refused''))] =
      take 2 [1, 2, 3]"
    by simp
  from h st' pre' show ?thesis by simp
qed

section \<open>Properties of the safe logger\<close>

text \<open>
  Claim C3. For every level and message and every primary logger whose \<^verbatim>\<open>log\<close> raises an
  exception \<open>e\<close>, \<^verbatim>\<open>SafeLogger.log\<close> returns without raising; afterwards the message has
  been added to the fallback buffer (it is the buffer's newest entry, the buffer having a
  positive capacity as the constructor's 500), and the record
  \<^verbatim>\<open>[MAIN LOGGER ERROR: e] msg\<close>, stamped with the time, is the newest entry of the fallback
  handler's queue.
\<close>

theorem SafeLogger_log_absorbs_failure:
  "main_log level msg (main_logger self) = (Inl e, p) \<Longrightarrow>
   0 < capacity (buffer_manager self) \<Longrightarrow>
     fst (SafeLogger_log main_log timestamp level msg self) = Inr () \<and>
     buffer_manager (snd (SafeLogger_log main_log timestamp level msg self)) =
       BufferManager_add msg (buffer_manager self) \<and>
     buffer (buffer_manager (snd (SafeLogger_log main_log timestamp level msg self))) \<noteq> [] \<and>
     last (buffer (buffer_manager (snd (SafeLogger_log main_log timestamp level msg self)))) = msg \<and>
     queue (fallback (snd (SafeLogger_log main_log timestamp level msg self))) =
       queue (fallback self) @
         [''['' @ timestamp @ ''] [MAIN LOGGER ERROR: '' @ exc_str e @ ''] '' @ msg]"
proof -
  assume raised: "main_log level msg (main_logger self) = (Inl e, p)"
    and cap: "0 < capacity (buffer_manager self)"
  let ?bm = "buffer_manager self"
  have ne: "buffer (BufferManager_add msg ?bm) \<noteq> []"
    using cap by (cases "buffer ?bm") (auto simp: BufferManager_add_def Let_def)
  have la: "last (buffer (BufferManager_add msg ?bm)) = msg"
    using cap
    by (cases "buffer ?bm") (auto simp: BufferManager_add_def Let_def)
  show ?thesis using raised ne la
    by (simp add: SafeLogger_log_def FallbackHandler_emit_def)
qed

text \<open>
  The theorem at a freshly constructed safe logger whose primary logger always raises:
  logging \<^verbatim>\<open>("ERROR", "x")\<close> returns, and the buffer holds \<^verbatim>\<open>"x"\<close>.
\<close>

theorem SafeLogger_log_absorbs_failure_witness:
  "failing_log ''ERROR'' ''x'' (main_logger (SafeLogger_init [] ''stdout'')) =
     (Inl (PyException ''disk full''), []) \<and>
   0 < capacity (buffer_manager (SafeLogger_init [] ''stdout'')) \<and>
   fst (SafeLogger_log failing_log ''12:00:00'' ''ERROR'' ''x'' (SafeLogger_init [] ''stdout'')) = Inr () \<and>
   buffer (buffer_manager (snd (SafeLogger_log failing_log ''12:00:00'' ''ERROR'' ''x''
     (SafeLogger_init [] ''stdout'')))) = [''x''] \<and>
   queue (fallback (snd (SafeLogger_log failing_log ''12:00:00'' ''ERROR'' ''x''
     (SafeLogger_init [] ''stdout'')))) = [''[12:00:00] [MAIN LOGGER ERROR: disk full] x'']"
proof -
  have h1: "failing_log ''ERROR'' ''x'' (main_logger (SafeLogger_init [] ''stdout'')) =
     (Inl (PyException ''disk full''), [])"
    by (simp add: failing_log_def SafeLogger_init_def)
  have h2: "0 < capacity (buffer_manager (SafeLogger_init ([] :: (string \<times> string) list) ''stdout''))"
    by (simp add: SafeLogger_init_def BufferManager_init_def)
  show ?thesis
    using h1 h2
      SafeLogger_log_absorbs_failure[where main_log = failing_log and level = "''ERROR''"
        and msg = "''x''" and self = "SafeLogger_init [] ''stdout''"
        and timestamp = "''12:00:00''", OF h1 h2]
    by (simp add: SafeLogger_init_def BufferManager_init_def BufferManager_add_def
        FallbackHandler_init_def)
qed

text \<open>
  Claim C8. When the primary logger's \<^verbatim>\<open>log\<close> returns, \<^verbatim>\<open>SafeLogger.log\<close> returns, the
  fallback buffer and the fallback handler (its queue included) are unchanged, and only the
  primary logger's state has moved.
\<close>

theorem SafeLogger_log_success_frame:
  "main_log level msg (main_logger self) = (Inr u, p) \<Longrightarrow>
     fst (SafeLogger_log main_log timestamp level msg self) = Inr () \<and>
     buffer_manager (snd (SafeLogger_log main_log timestamp level msg self)) = buffer_manager self \<and>
     fallback (snd (SafeLogger_log main_log timestamp level msg self)) = fallback self \<and>
     main_logger (snd (SafeLogger_log main_log timestamp level msg self)) = p"
  by (simp add: SafeLogger_log_def)

text \<open>The theorem at a freshly constructed safe logger with a working primary logger.\<close>

theorem SafeLogger_log_success_frame_witness:
  "working_log ''INFO'' ''ok'' (main_logger (SafeLogger_init [] ''stdout'')) =
     (Inr (), [(''INFO'', ''ok'')]) \<and>
   buffer (buffer_manager (snd (SafeLogger_log working_log ''12:00:00'' ''INFO'' ''ok''
     (SafeLogger_init [] ''stdout'')))) = [] \<and>
   queue (fallback (snd (SafeLogger_log working_log ''12:00:00'' ''INFO'' ''ok''
     (SafeLogger_init [] ''stdout'')))) = [] \<and>
   main_logger (snd (SafeLogger_log working_log ''12:00:00'' ''INFO'' ''ok''
     (SafeLogger_init [] ''stdout''))) = [(''INFO'', ''ok'')]"
proof -
  have h: "working_log ''INFO'' ''ok'' (main_logger (SafeLogger_init [] ''stdout'')) =
     (Inr (), [(''INFO'', ''ok'')])"
    by (simp add: working_log_def SafeLogger_init_def)
  show ?thesis
    using h
      SafeLogger_log_success_frame[where main_log = working_log and level = "''INFO''"
        and msg = "''ok''" and self = "SafeLogger_init [] ''stdout''"
        and timestamp = "''12:00:00''", OF h]
    by (simp add: SafeLogger_init_def BufferManager_init_def FallbackHandler_init_def)
qed

section \<open>Properties of dispatch and retry\<close>

lemma send_results_length: "length (send_results send message chs x) = length chs"
  by (induction chs arbitrary: x) simp_all

lemma channels_state_Cons:
  "channels_state send message (ch # rest) x =
     channels_state send message rest (snd (send ch message x))"
  by (simp add: channels_state_def)

lemma send_all_result:
  "send_all send message chs acc w =
     (acc \<and> list_all id (send_results send message chs (ext w)),
      w\<lparr>events := events w @
            map (\<lambda>(ch, ok). Sent ch ok) (zip chs (send_results send message chs (ext w))),
        ext := channels_state send message chs (ext w)\<rparr>)"
proof (induction chs arbitrary: acc w)
  case Nil
  show ?case by (simp add: channels_state_def)
next
  case (Cons ch rest)
  obtain ok x where s: "send ch message (ext w) = (ok, x)" by (cases "send ch message (ext w)")
  show ?case
    by (simp add: s Cons.IH emit_event_def channels_state_Cons conj_assoc)
qed

text \<open>
  Claim C5. For every message and every list of channels registered for its level (the list
  is not empty: a level without channels is the case of the guard, claim C1), one attempt
  of \<^verbatim>\<open>dispatch\<close> calls \<^verbatim>\<open>send\<close> once on every registered channel, in registration order,
  each call in the state the previous one left and whatever the earlier calls returned: the
  events added are these calls with the values \<^verbatim>\<open>send\<close> returned, one per channel, and the
  channels' state afterwards is the one all these calls leave. The attempt succeeds if and
  only if every one of the returned values is true.
\<close>

theorem dispatch_attempt_all_channels:
  "chs = channels_get self (msg_level message) \<Longrightarrow> chs \<noteq> [] \<Longrightarrow>
     dispatch_attempt send self message w =
       (list_all id (send_results send message chs (ext w)),
        w\<lparr>events := events w @
              map (\<lambda>(ch, ok). Sent ch ok) (zip chs (send_results send message chs (ext w))),
          ext := channels_state send message chs (ext w)\<rparr>) \<and>
     length (send_results send message chs (ext w)) = length chs \<and>
     (fst (dispatch_attempt send self message w) \<longleftrightarrow>
        (\<forall>ok \<in> set (send_results send message chs (ext w)). ok))"
proof -
  assume chs: "chs = channels_get self (msg_level message)" and ne: "chs \<noteq> []"
  have d: "dispatch_attempt send self message w = send_all send message chs True w"
    using chs ne by (simp add: dispatch_attempt_def Let_def)
  have eq: "dispatch_attempt send self message w =
       (list_all id (send_results send message chs (ext w)),
        w\<lparr>events := events w @
              map (\<lambda>(ch, ok). Sent ch ok) (zip chs (send_results send message chs (ext w))),
          ext := channels_state send message chs (ext w)\<rparr>)"
    by (simp add: d send_all_result)
  have r: "fst (dispatch_attempt send self message w) \<longleftrightarrow>
        (\<forall>ok \<in> set (send_results send message chs (ext w)). ok)"
    by (simp add: eq list_all_iff)
  from eq r send_results_length[of send message chs "ext w"] show ?thesis by blast
qed

text \<open>
  The theorem at two channels registered for \<^verbatim>\<open>ALERT\<close>, the first failing and the second
  succeeding: both are called, and the attempt fails.
\<close>

theorem dispatch_attempt_all_channels_witness:
  "[0, 1] = channels_get two_alert_channels (msg_level alert_message) \<and>
   [0, 1::nat] \<noteq> [] \<and>
   send_results first_fails_send alert_message [0, 1] (ext quiet_world) = [False, True] \<and>
   dispatch_attempt first_fails_send two_alert_channels alert_message quiet_world =
     (False, \<lparr>events = [Sent 0 False, Sent 1 True], ext = 2\<rparr>)"
proof -
  have h1: "[0, 1] = channels_get two_alert_channels (msg_level alert_message)"
    by (simp add: channels_get_def two_alert_channels_def register_channel_def
        NotificationDispatcher_init_def alert_message_def)
  have h2: "[0, 1::nat] \<noteq> []" by simp
  have res: "send_results first_fails_send alert_message [0, 1] (ext quiet_world) = [False, True]"
    by (simp add: first_fails_send_def)
  from dispatch_attempt_all_channels[OF h1 h2, of first_fails_send quiet_world]
  have "dispatch_attempt first_fails_send two_alert_channels alert_message quiet_world =
       (list_all id (send_results first_fails_send alert_message [0, 1] (ext quiet_world)),
        quiet_world\<lparr>events := events quiet_world @
              map (\<lambda>(ch, ok). Sent ch ok)
                (zip [0, 1] (send_results first_fails_send alert_message [0, 1] (ext quiet_world))),
          ext := channels_state first_fails_send alert_message [0, 1] (ext quiet_world)\<rparr>)"
    by blast
  then have "dispatch_attempt first_fails_send two_alert_channels alert_message quiet_world =
     (False, \<lparr>events = [Sent 0 False, Sent 1 True], ext = 2\<rparr>)"
    by (simp add: first_fails_send_def channels_state_def quiet_world_def)
  with h1 h2 res show ?thesis by blast
qed

text \<open>
  Claim C1, as amended. For every message whose level has no registered channel,
  \<^verbatim>\<open>dispatch\<close> returns false and calls no channel, but the decorator treats this
  result as any other failure: the attempt is made three times, each logging the
  no-channels warning, followed by a retry warning and a delay of 3, and the final failure
  is logged.
\<close>

theorem dispatch_no_channels_is_retried:
  "channels_get self (msg_level message) = [] \<Longrightarrow>
     dispatch send self message w =
       (False,
        w\<lparr>events := events w @
           [Log ''notifications.dispatcher'' ''warn'' ''No channels registered for level''
              [(''level'', StrVal (msg_level message))],
            Log ''notifications.retry'' ''warn'' ''Retrying notification'' [(''attempt'', IntVal 1)],
            Sleep 3,
            Log ''notifications.dispatcher'' ''warn'' ''No channels registered for level''
              [(''level'', StrVal (msg_level message))],
            Log ''notifications.retry'' ''warn'' ''Retrying notification'' [(''attempt'', IntVal 2)],
            Sleep 3,
            Log ''notifications.dispatcher'' ''warn'' ''No channels registered for level''
              [(''level'', StrVal (msg_level message))],
            Log ''notifications.retry'' ''warn'' ''Retrying notification'' [(''attempt'', IntVal 3)],
            Sleep 3,
            Log ''notifications.retry'' ''error'' ''Notification failed after retries'' []]\<rparr>)"
proof -
  assume none: "channels_get self (msg_level message) = []"
  have att: "\<And>v. dispatch_attempt send self message v =
      (False, emit_event (Log ''notifications.dispatcher'' ''warn''
                 ''No channels registered for level''
                 [(''level'', StrVal (msg_level message))]) v)"
    using none by (simp add: dispatch_attempt_def)
  have up: "[Suc 0 ..< 4] = [1, 2, 3]" by (simp add: upt_rec)
  show ?thesis
    by (simp add: dispatch_def with_retry_def with_retry_attempts_def up att emit_event_def)
qed

text \<open>
  The theorem at a freshly constructed dispatcher: ten events, none of them a call of
  \<^verbatim>\<open>send\<close>.
\<close>

theorem dispatch_no_channels_is_retried_witness:
  "channels_get (NotificationDispatcher_init :: nat NotificationDispatcher) (msg_level alert_message) = [] \<and>
   fst (dispatch flaky_send NotificationDispatcher_init alert_message quiet_world) = False \<and>
   sent_of (events (snd (dispatch flaky_send NotificationDispatcher_init alert_message quiet_world))) = [] \<and>
   length (events (snd (dispatch flaky_send NotificationDispatcher_init alert_message quiet_world))) = 10"
proof -
  have h: "channels_get (NotificationDispatcher_init :: nat NotificationDispatcher)
             (msg_level alert_message) = []"
    by (simp add: channels_get_def NotificationDispatcher_init_def alert_message_def)
  show ?thesis
    using h dispatch_no_channels_is_retried[OF h, of flaky_send quiet_world]
    by (simp add: quiet_world_def)
qed

text \<open>
  Claim C1 as stated fails at a freshly constructed dispatcher and a message of level
  \<^verbatim>\<open>ALERT\<close>: the call logs three retry warnings and sleeps three times before it
  returns.
\<close>

theorem dispatch_no_channels_counterexample:
  "events (snd (dispatch flaky_send NotificationDispatcher_init alert_message quiet_world)) =
     [Log ''notifications.dispatcher'' ''warn'' ''No channels registered for level''
        [(''level'', StrVal ''ALERT'')],
      Log ''notifications.retry'' ''warn'' ''Retrying notification'' [(''attempt'', IntVal 1)],
      Sleep 3,
      Log ''notifications.dispatcher'' ''warn'' ''No channels registered for level''
        [(''level'', StrVal ''ALERT'')],
      Log ''notifications.retry'' ''warn'' ''Retrying notification'' [(''attempt'', IntVal 2)],
      Sleep 3,
      Log ''notifications.dispatcher'' ''warn'' ''No channels registered for level''
        [(''level'', StrVal ''ALERT'')],
      Log ''notifications.retry'' ''warn'' ''Retrying notification'' [(''attempt'', IntVal 3)],
      Sleep 3,
      Log ''notifications.retry'' ''error'' ''Notification failed after retries'' []]"
proof -
  have up: "[Suc 0 ..< 4] = [1, 2, 3]" by (simp add: upt_rec)
  show ?thesis
    by (simp add: dispatch_def with_retry_def with_retry_attempts_def up dispatch_attempt_def
        channels_get_def NotificationDispatcher_init_def alert_message_def quiet_world_def
        emit_event_def)
qed





section \<open>Properties of channel registration\<close>

lemma has_predefined_levels_init: "has_predefined_levels NotificationDispatcher_init"
  by (simp add: has_predefined_levels_def predefined_levels_def NotificationDispatcher_init_def)

text \<open>
  Claim C9, as amended. \<^verbatim>\<open>register_channel\<close> is total. In a dispatcher that has the four
  predefined levels (the constructor's, kept by every registration), the level's list
  afterwards is its list before (the empty list when the level had none) with the channel
  added at the end: for a level that has a list, which the four predefined levels always
  have and any other level has once a channel was registered for it, the channel is
  appended to that list; for a level without a list, an empty list is created and the
  channel appended; the lists of all other levels are unchanged. The call logs one message.
\<close>

theorem register_channel_appends:
  "has_predefined_levels self \<Longrightarrow>
     channels (fst (register_channel str_of level channel self w)) level =
       Some (channels_get self level @ [channel]) \<and>
     (level \<in> set predefined_levels \<longrightarrow> channels self level = Some (channels_get self level)) \<and>
     (\<forall>l. channels self level = Some l \<longrightarrow>
        channels (fst (register_channel str_of level channel self w)) level = Some (l @ [channel])) \<and>
     (channels self level = None \<longrightarrow>
        channels (fst (register_channel str_of level channel self w)) level = Some [channel]) \<and>
     (\<forall>other. other \<noteq> level \<longrightarrow>
        channels (fst (register_channel str_of level channel self w)) other = channels self other) \<and>
     has_predefined_levels (fst (register_channel str_of level channel self w)) \<and>
     events (snd (register_channel str_of level channel self w)) =
       events w @ [Log ''notifications.dispatcher'' ''info''
                     (''Channel registered for level='' @ level)
                     [(''channel'', StrVal (str_of channel))]]"
proof -
  assume inv: "has_predefined_levels self"
  have lv: "channels (fst (register_channel str_of level channel self w)) level =
       Some (channels_get self level @ [channel])"
    by (simp add: register_channel_def channels_get_def Let_def split: option.splits)
  have pre: "level \<in> set predefined_levels \<longrightarrow> channels self level = Some (channels_get self level)"
    using inv by (auto simp: has_predefined_levels_def list_all_iff channels_get_def)
  have present: "\<forall>l. channels self level = Some l \<longrightarrow>
        channels (fst (register_channel str_of level channel self w)) level = Some (l @ [channel])"
    by (simp add: register_channel_def Let_def)
  have fresh: "channels self level = None \<longrightarrow>
        channels (fst (register_channel str_of level channel self w)) level = Some [channel]"
    by (simp add: register_channel_def Let_def)
  have other: "\<forall>other. other \<noteq> level \<longrightarrow>
        channels (fst (register_channel str_of level channel self w)) other = channels self other"
    by (simp add: register_channel_def Let_def split: option.splits)
  have inv': "has_predefined_levels (fst (register_channel str_of level channel self w))"
    using inv
    by (auto simp: has_predefined_levels_def list_all_iff register_channel_def Let_def
        split: option.splits)
  have ev: "events (snd (register_channel str_of level channel self w)) =
       events w @ [Log ''notifications.dispatcher'' ''info''
                     (''Channel registered for level='' @ level)
                     [(''channel'', StrVal (str_of channel))]]"
    by (simp add: register_channel_def Let_def emit_event_def)
  from lv pre present fresh other inv' ev show ?thesis by blast
qed

text \<open>
  The theorem at a freshly constructed dispatcher, for the new level \<^verbatim>\<open>CUSTOM\<close>; two
  registrations for the predefined level \<^verbatim>\<open>ALERT\<close> give the list of both channels in
  registration order.
\<close>

theorem register_channel_appends_witness:
  "has_predefined_levels (NotificationDispatcher_init :: nat NotificationDispatcher) \<and>
   channels (fst (register_channel channel_name ''ALERT'' 1
      (fst (register_channel channel_name ''ALERT'' 0 NotificationDispatcher_init quiet_world))
      quiet_world)) ''ALERT'' = Some [0, 1] \<and>
   channels (fst (register_channel channel_name ''CUSTOM'' 7 NotificationDispatcher_init quiet_world))
      ''CUSTOM'' = Some [7] \<and>
   channels (fst (register_channel channel_name ''CUSTOM'' 7 NotificationDispatcher_init quiet_world))
      ''ALERT'' = Some []"
proof -
  have h: "has_predefined_levels (NotificationDispatcher_init :: nat NotificationDispatcher)"
    by (rule has_predefined_levels_init)
  have c: "channels_get (NotificationDispatcher_init :: nat NotificationDispatcher) ''CUSTOM'' = []"
    by (simp add: channels_get_def NotificationDispatcher_init_def)
  show ?thesis
    using h register_channel_appends[OF h, of channel_name "''CUSTOM''" 7 quiet_world]
    by (simp add: c register_channel_def NotificationDispatcher_init_def Let_def)
qed

text \<open>
  Claim C9 as stated fails for a level outside the predefined four that was registered
  before: the second registration for \<^verbatim>\<open>CUSTOM\<close> creates no empty list, it appends to the
  list the first one made.
\<close>

theorem register_channel_custom_level_counterexample:
  "''CUSTOM'' \<notin> set predefined_levels \<and>
   channels (fst (register_channel channel_name ''CUSTOM'' 8
      (fst (register_channel channel_name ''CUSTOM'' 7 NotificationDispatcher_init quiet_world))
      quiet_world)) ''CUSTOM'' = Some [7, 8]"
  by (simp add: predefined_levels_def register_channel_def NotificationDispatcher_init_def Let_def)

section \<open>Properties of the context store and of scopes\<close>

text \<open>
  Claim C10. In one thread of control, for every string \<open>cid\<close> (the empty one included)
  \<^verbatim>\<open>set_correlation_id(cid)\<close> returns \<open>cid\<close> and \<^verbatim>\<open>get_correlation_id()\<close> then returns
  it; without an argument it returns the identifier that the generator produces at this
  call, a new call of the generator, and \<^verbatim>\<open>get_correlation_id()\<close> then returns that;
  after \<^verbatim>\<open>clear_correlation_id()\<close>, \<^verbatim>\<open>get_correlation_id()\<close> returns \<^verbatim>\<open>None\<close>; clearing
  is total, and with nothing set it leaves the store as it is.
\<close>

theorem correlation_id_set_get_clear:
  "fst (set_correlation_id (Some cid) s) = cid \<and>
   get_correlation_id (snd (set_correlation_id (Some cid) s)) = Some cid \<and>
   fst (set_correlation_id None s) = uuid4 s (uuid4_calls s) \<and>
   get_correlation_id (snd (set_correlation_id None s)) = Some (uuid4 s (uuid4_calls s)) \<and>
   uuid4_calls (snd (set_correlation_id None s)) = Suc (uuid4_calls s) \<and>
   get_correlation_id (clear_correlation_id s) = None \<and>
   (correlation_id_ctx s = None \<and> thread_local_correlation_id s = None \<longrightarrow>
      clear_correlation_id s = s)"
  by (cases "cid = []")
     (simp_all add: set_correlation_id_def get_correlation_id_def clear_correlation_id_def
       generate_correlation_id_def Let_def)

text \<open>The theorem at the initial store, where nothing is set.\<close>

theorem correlation_id_set_get_clear_witness:
  "correlation_id_ctx empty_store = None \<and> thread_local_correlation_id empty_store = None \<and>
   clear_correlation_id empty_store = empty_store \<and>
   get_correlation_id (snd (set_correlation_id (Some ''req-1'') empty_store)) = Some ''req-1'' \<and>
   get_correlation_id (snd (set_correlation_id (Some []) empty_store)) = Some [] \<and>
   fst (set_correlation_id None empty_store) = ''00000000-0000-4000-8000-'' \<and>
   get_correlation_id (clear_correlation_id (snd (set_correlation_id (Some ''req-1'') empty_store))) = None"
proof -
  have h: "correlation_id_ctx empty_store = None \<and> thread_local_correlation_id empty_store = None"
    by (simp add: empty_store_def initial_store_def)
  from correlation_id_set_get_clear[of "''req-1''" empty_store] h
  have a: "clear_correlation_id empty_store = empty_store"
    and b: "get_correlation_id (snd (set_correlation_id (Some ''req-1'') empty_store)) = Some ''req-1''"
    by blast+
  from correlation_id_set_get_clear[of "[]" empty_store]
  have c: "get_correlation_id (snd (set_correlation_id (Some []) empty_store)) = Some []"
    by blast
  from correlation_id_set_get_clear[of "[]" empty_store]
  have d: "fst (set_correlation_id None empty_store) = ''00000000-0000-4000-8000-''"
    by (simp add: empty_store_def initial_store_def numbered_uuid_def)
  from correlation_id_set_get_clear[of "[]" "snd (set_correlation_id (Some ''req-1'') empty_store)"]
  have e: "get_correlation_id (clear_correlation_id (snd (set_correlation_id (Some ''req-1'') empty_store))) = None"
    by blast
  from h a b c d e show ?thesis by blast
qed

lemma update_new_key:
  "k \<notin> fst ` set al \<Longrightarrow> AList.update k v al = al @ [(k, v)]"
  by (induction al) auto

lemma set_extra_field_frame:
  "correlation_id_ctx (set_extra_field k v s) = correlation_id_ctx s"
  "thread_local_correlation_id (set_extra_field k v s) = thread_local_correlation_id s"
  "transaction_id_ctx (set_extra_field k v s) = transaction_id_ctx s"
  "thread_local_transaction_id (set_extra_field k v s) = thread_local_transaction_id s"
  "user_id_ctx (set_extra_field k v s) = user_id_ctx s"
  "thread_local_user_id (set_extra_field k v s) = thread_local_user_id s"
  by (simp_all add: set_extra_field_def)

lemma set_extra_fields_from_frame:
  "correlation_id_ctx (set_extra_fields_from xs s) = correlation_id_ctx s \<and>
   thread_local_correlation_id (set_extra_fields_from xs s) = thread_local_correlation_id s \<and>
   transaction_id_ctx (set_extra_fields_from xs s) = transaction_id_ctx s \<and>
   thread_local_transaction_id (set_extra_fields_from xs s) = thread_local_transaction_id s \<and>
   user_id_ctx (set_extra_fields_from xs s) = user_id_ctx s \<and>
   thread_local_user_id (set_extra_fields_from xs s) = thread_local_user_id s"
  by (induction xs s rule: set_extra_fields_from.induct) (simp_all add: set_extra_field_frame)

lemma set_extra_fields_from_fresh:
  "distinct (map fst (ys @ xs)) \<Longrightarrow> extra_fields_ctx s = ys \<Longrightarrow>
   thread_local_extra_or_empty s = ys \<Longrightarrow>
     extra_fields_ctx (set_extra_fields_from xs s) = ys @ xs \<and>
     thread_local_extra_or_empty (set_extra_fields_from xs s) = ys @ xs"
proof (induction xs arbitrary: ys s)
  case Nil
  then show ?case by simp
next
  case (Cons kv xs)
  obtain k v where kv: "kv = (k, v)" by (cases kv)
  from Cons.prems(1) have new: "k \<notin> fst ` set ys" by (auto simp: kv)
  let ?s = "set_extra_field k v s"
  have c: "extra_fields_ctx ?s = ys @ [(k, v)]"
    using Cons.prems(2) new by (simp add: set_extra_field_def update_new_key)
  have t: "thread_local_extra_or_empty ?s = ys @ [(k, v)]"
    using Cons.prems(3) new
    by (simp add: set_extra_field_def thread_local_extra_or_empty_def update_new_key)
  have d: "distinct (map fst ((ys @ [(k, v)]) @ xs))" using Cons.prems(1) by (simp add: kv)
  from Cons.IH[OF d c t] show ?case by (simp add: kv)
qed

lemma restore_extra_fields:
  assumes "distinct (map fst prev)"
  shows "get_extra_fields (set_extra_fields_from prev (clear_extra_fields s)) = prev"
proof -
  let ?c = "clear_extra_fields s"
  have c: "extra_fields_ctx ?c = []" by (simp add: clear_extra_fields_def)
  have t: "thread_local_extra_or_empty ?c = []"
    by (simp add: clear_extra_fields_def thread_local_extra_or_empty_def Let_def split: option.splits)
  from assms have d: "distinct (map fst ([] @ prev))" by simp
  from set_extra_fields_from_fresh[OF d c t]
  have "extra_fields_ctx (set_extra_fields_from prev ?c) = prev"
    and "thread_local_extra_or_empty (set_extra_fields_from prev ?c) = prev" by simp_all
  then show ?thesis
    by (auto simp: get_extra_fields_def thread_local_extra_or_empty_def Let_def)
qed

lemma getters_after_extra:
  "get_correlation_id (set_extra_fields_from xs (clear_extra_fields s)) = get_correlation_id s"
  "get_transaction_id (set_extra_fields_from xs (clear_extra_fields s)) = get_transaction_id s"
  "get_user_id (set_extra_fields_from xs (clear_extra_fields s)) = get_user_id s"
  by (simp_all add: get_correlation_id_def get_transaction_id_def get_user_id_def
      set_extra_fields_from_frame clear_extra_fields_def Let_def)

lemma exit_getters:
  assumes "prev_extra_fields self = Some prev" and "distinct (map fst prev)"
  shows "fst (LoggingContext_exit self s) = Inr () \<and>
     get_correlation_id (snd (LoggingContext_exit self s)) = restored (prev_correlation_id self) \<and>
     get_transaction_id (snd (LoggingContext_exit self s)) = restored (prev_transaction_id self) \<and>
     get_user_id (snd (LoggingContext_exit self s)) = restored (prev_user_id self) \<and>
     get_extra_fields (snd (LoggingContext_exit self s)) = prev"
proof -
  define s1 where "s1 = (case prev_correlation_id self of
                  None \<Rightarrow> clear_correlation_id s
                | Some cid \<Rightarrow> if cid \<noteq> [] then snd (set_correlation_id (Some cid) s)
                              else clear_correlation_id s)"
  define s2 where "s2 = (case prev_transaction_id self of
                  None \<Rightarrow> clear_transaction_id s1
                | Some tid \<Rightarrow> if tid \<noteq> [] then set_transaction_id tid s1
                              else clear_transaction_id s1)"
  define s3 where "s3 = (case prev_user_id self of
                  None \<Rightarrow> clear_user_id s2
                | Some uid \<Rightarrow> if uid \<noteq> [] then set_user_id uid s2 else clear_user_id s2)"
  have ex: "LoggingContext_exit self s = (Inr (), set_extra_fields_from prev (clear_extra_fields s3))"
    unfolding LoggingContext_exit_def s1_def s2_def s3_def Let_def
    by (simp only: assms(1) option.case)
  have g1: "get_correlation_id s1 = restored (prev_correlation_id self)"
    by (simp add: s1_def restored_def get_correlation_id_def set_correlation_id_def
        clear_correlation_id_def Let_def split: option.splits)
  have g2: "get_transaction_id s2 = restored (prev_transaction_id self)"
    by (simp add: s2_def restored_def get_transaction_id_def set_transaction_id_def
        clear_transaction_id_def Let_def split: option.splits)
  have g3: "get_user_id s3 = restored (prev_user_id self)"
    by (simp add: s3_def restored_def get_user_id_def set_user_id_def
        clear_user_id_def Let_def split: option.splits)
  have f12: "get_correlation_id s2 = get_correlation_id s1"
    by (simp add: s2_def get_correlation_id_def set_transaction_id_def
        clear_transaction_id_def Let_def split: option.splits)
  have f13: "get_correlation_id s3 = get_correlation_id s2"
    by (simp add: s3_def get_correlation_id_def set_user_id_def
        clear_user_id_def Let_def split: option.splits)
  have f23: "get_transaction_id s3 = get_transaction_id s2"
    by (simp add: s3_def get_transaction_id_def set_user_id_def
        clear_user_id_def Let_def split: option.splits)
  show ?thesis
    by (simp add: ex getters_after_extra restore_extra_fields[OF assms(2)] g1 g2 g3 f12 f13 f23)
qed

lemma restored_cases:
  "(v \<noteq> Some [] \<longrightarrow> restored v = v) \<and> (v = Some [] \<longrightarrow> restored v = None)"
  by (cases v) (auto simp: restored_def)

lemma enter_snapshot:
  "LoggingContext_enter ctx s = (self1, s1) \<Longrightarrow>
     prev_correlation_id self1 = get_correlation_id s \<and>
     prev_transaction_id self1 = get_transaction_id s \<and>
     prev_user_id self1 = get_user_id s \<and>
     prev_extra_fields self1 = Some (get_extra_fields s)"
  by (auto simp: LoggingContext_enter_def Let_def)

text \<open>
  Claim C2, as amended. For every prior state of the store (the keys of the extra fields
  it shows being distinct, as those of a dictionary are), every scope and every body,
  returning or raising, that leaves in the scope object the values \<^verbatim>\<open>__enter__\<close> saved there
  (every body that does not touch the scope object does, also when it opens scopes on
  instances of their own, to any depth): after the scope's exit each of
  \<^verbatim>\<open>get_correlation_id\<close>, \<^verbatim>\<open>get_transaction_id\<close> and \<^verbatim>\<open>get_user_id\<close> returns what it returned
  before entry, provided that was \<^verbatim>\<open>None\<close> or a non-empty string, and returns \<^verbatim>\<open>None\<close> when
  it was the empty string; \<^verbatim>\<open>get_extra_fields\<close> returns exactly the dictionary it returned
  before entry, so fields set inside the scope are gone; what the body returned or raised
  is passed on.
\<close>

theorem LoggingContext_restores:
  "distinct (map fst (get_extra_fields s)) \<Longrightarrow>
   LoggingContext_enter ctx s = (self1, s1) \<Longrightarrow>
   body self1 s1 = (res, self2, s2) \<Longrightarrow>
   same_snapshot self1 self2 \<Longrightarrow>
   with_LoggingContext ctx body s = (res', self', s') \<Longrightarrow>
     res' = res \<and> self' = self2 \<and>
     (get_correlation_id s \<noteq> Some [] \<longrightarrow> get_correlation_id s' = get_correlation_id s) \<and>
     (get_correlation_id s = Some [] \<longrightarrow> get_correlation_id s' = None) \<and>
     (get_transaction_id s \<noteq> Some [] \<longrightarrow> get_transaction_id s' = get_transaction_id s) \<and>
     (get_transaction_id s = Some [] \<longrightarrow> get_transaction_id s' = None) \<and>
     (get_user_id s \<noteq> Some [] \<longrightarrow> get_user_id s' = get_user_id s) \<and>
     (get_user_id s = Some [] \<longrightarrow> get_user_id s' = None) \<and>
     get_extra_fields s' = get_extra_fields s"
proof -
  assume d: "distinct (map fst (get_extra_fields s))"
    and en: "LoggingContext_enter ctx s = (self1, s1)"
    and bo: "body self1 s1 = (res, self2, s2)"
    and same: "same_snapshot self1 self2"
    and w: "with_LoggingContext ctx body s = (res', self', s')"
  from enter_snapshot[OF en] same have prev:
    "prev_correlation_id self2 = get_correlation_id s"
    "prev_transaction_id self2 = get_transaction_id s"
    "prev_user_id self2 = get_user_id s"
    "prev_extra_fields self2 = Some (get_extra_fields s)"
    by (simp_all add: same_snapshot_def)
  note ex = exit_getters[OF prev(4) d, of s2]
  obtain u s3 where exv: "LoggingContext_exit self2 s2 = (u, s3)"
    by (cases "LoggingContext_exit self2 s2")
  from ex exv have u: "u = Inr ()" by simp
  from w en bo exv u have res: "res' = res" and self': "self' = self2" and s': "s' = s3"
    by (simp_all add: with_LoggingContext_def)
  from ex exv have g:
    "get_correlation_id s3 = restored (get_correlation_id s)"
    "get_transaction_id s3 = restored (get_transaction_id s)"
    "get_user_id s3 = restored (get_user_id s)"
    "get_extra_fields s3 = get_extra_fields s"
    by (simp_all add: prev)
  show ?thesis
    using restored_cases[of "get_correlation_id s"] restored_cases[of "get_transaction_id s"]
      restored_cases[of "get_user_id s"] res self'
    by (simp add: s' g)
qed

text \<open>
  The theorem at a store with correlation identifier \<^verbatim>\<open>"A"\<close>, no transaction identifier,
  an empty user identifier and one extra field, for a scope that sets a correlation
  identifier, a transaction identifier and an extra field, and whose body opens a second
  scope on an instance of its own: after the inner exit the body reads the outer scope's
  \<^verbatim>\<open>"X"\<close>, and after the outer exit the store shows \<^verbatim>\<open>"A"\<close>, no transaction identifier and
  the one extra field again; the empty user identifier has become \<^verbatim>\<open>None\<close>. With a body
  that raises, the exception is passed on and the store is restored all the same.
\<close>

theorem LoggingContext_restores_witness:
  "distinct (map fst (get_extra_fields example_store)) \<and>
   same_snapshot
     (fst (LoggingContext_enter
        (LoggingContext_init (Some ''X'') (Some ''tx-1'') None True [(''component'', ''ingest'')])
        example_store))
     (fst (snd (body_nested
        (fst (LoggingContext_enter
           (LoggingContext_init (Some ''X'') (Some ''tx-1'') None True [(''component'', ''ingest'')])
           example_store))
        (snd (LoggingContext_enter
           (LoggingContext_init (Some ''X'') (Some ''tx-1'') None True [(''component'', ''ingest'')])
           example_store))))) \<and>
   get_correlation_id example_store = Some ''A'' \<and>
   get_transaction_id example_store = None \<and>
   get_user_id example_store = Some [] \<and>
   get_extra_fields example_store = [(''k'', ''v'')] \<and>
   fst (with_LoggingContext
          (LoggingContext_init (Some ''X'') (Some ''tx-1'') None True [(''component'', ''ingest'')])
          body_nested example_store) = Inr (Some ''X'') \<and>
   get_correlation_id (snd (snd (with_LoggingContext
          (LoggingContext_init (Some ''X'') (Some ''tx-1'') None True [(''component'', ''ingest'')])
          body_nested example_store))) = Some ''A'' \<and>
   get_transaction_id (snd (snd (with_LoggingContext
          (LoggingContext_init (Some ''X'') (Some ''tx-1'') None True [(''component'', ''ingest'')])
          body_nested example_store))) = None \<and>
   get_user_id (snd (snd (with_LoggingContext
          (LoggingContext_init (Some ''X'') (Some ''tx-1'') None True [(''component'', ''ingest'')])
          body_nested example_store))) = None \<and>
   get_extra_fields (snd (snd (with_LoggingContext
          (LoggingContext_init (Some ''X'') (Some ''tx-1'') None True [(''component'', ''ingest'')])
          body_nested example_store))) = [(''k'', ''v'')] \<and>
   fst (with_LoggingContext (LoggingContext_init None None (Some ''u-1'') True [])
          body_raising example_store) = Inl (PyException ''ValueError'') \<and>
   get_correlation_id (snd (snd (with_LoggingContext
          (LoggingContext_init None None (Some ''u-1'') True [])
          body_raising example_store))) = Some ''A'' \<and>
   get_extra_fields (snd (snd (with_LoggingContext
          (LoggingContext_init None None (Some ''u-1'') True [])
          body_raising example_store))) = [(''k'', ''v'')]"
proof -
  let ?ctx = "LoggingContext_init (Some ''X'') (Some ''tx-1'') None True [(''component'', ''ingest'')]"
  let ?en = "LoggingContext_enter ?ctx example_store"
  let ?bo = "body_nested (fst ?en) (snd ?en)"
  let ?out = "with_LoggingContext ?ctx body_nested example_store"
  have g: "get_correlation_id example_store = Some ''A''"
      "get_transaction_id example_store = None"
      "get_user_id example_store = Some []"
      "get_extra_fields example_store = [(''k'', ''v'')]"
    by (simp_all add: example_store_def empty_store_def initial_store_def set_extra_field_def
        set_user_id_def set_correlation_id_def get_correlation_id_def get_transaction_id_def
        get_user_id_def get_extra_fields_def Let_def)
  have h1: "distinct (map fst (get_extra_fields example_store))" by (simp add: g)
  have h2: "?en = (fst ?en, snd ?en)" by simp
  have h3: "?bo = (fst ?bo, fst (snd ?bo), snd (snd ?bo))" by simp
  have keep: "fst (snd ?bo) = fst ?en"
    by (simp add: body_nested_def split: prod.splits sum.splits)
  have h4: "same_snapshot (fst ?en) (fst (snd ?bo))"
    by (simp only: keep) (simp add: same_snapshot_def)
  have h5: "?out = (fst ?out, fst (snd ?out), snd (snd ?out))" by simp
  have en: "snd ?en =
    \<lparr>correlation_id_ctx = Some ''X'', transaction_id_ctx = Some ''tx-1'',
     user_id_ctx = Some [], extra_fields_ctx = [(''k'', ''v''), (''component'', ''ingest'')],
     thread_local_correlation_id = Some ''X'',
     thread_local_transaction_id = Some ''tx-1'', thread_local_user_id = Some [],
     thread_local_extra_fields = Some [(''k'', ''v''), (''component'', ''ingest'')],
     uuid4 = numbered_uuid, uuid4_calls = 0\<rparr>"
    by (simp add: LoggingContext_enter_def LoggingContext_init_def example_store_def
        empty_store_def initial_store_def set_extra_field_def set_transaction_id_def
        set_user_id_def set_correlation_id_def Let_def)
  have inner: "fst ?bo = Inr (Some ''X'')"
    unfolding en
    by (simp add: body_nested_def with_LoggingContext_def LoggingContext_enter_def
        LoggingContext_exit_def LoggingContext_init_def body_set_Y_def
        set_extra_field_def set_transaction_id_def clear_transaction_id_def
        set_user_id_def clear_user_id_def set_correlation_id_def clear_correlation_id_def
        clear_extra_fields_def
        get_correlation_id_def get_transaction_id_def get_user_id_def get_extra_fields_def Let_def)
  note t = LoggingContext_restores[OF h1 h2 h3 h4 h5]
  from t have r: "fst ?out = fst ?bo" by blast
  from t g have c: "get_correlation_id (snd (snd ?out)) = Some ''A''" by simp
  from t g have tr: "get_transaction_id (snd (snd ?out)) = None" by simp
  from t g have us: "get_user_id (snd (snd ?out)) = None" by simp
  from t g have ef: "get_extra_fields (snd (snd ?out)) = [(''k'', ''v'')]" by simp
  let ?ctx2 = "LoggingContext_init None None (Some ''u-1'') True []"
  let ?en2 = "LoggingContext_enter ?ctx2 example_store"
  let ?bo2 = "body_raising (fst ?en2) (snd ?en2)"
  let ?out2 = "with_LoggingContext ?ctx2 body_raising example_store"
  have k2: "?en2 = (fst ?en2, snd ?en2)" by simp
  have k3: "?bo2 = (fst ?bo2, fst (snd ?bo2), snd (snd ?bo2))" by simp
  have k4: "same_snapshot (fst ?en2) (fst (snd ?bo2))"
    by (simp add: body_raising_def same_snapshot_def)
  have k5: "?out2 = (fst ?out2, fst (snd ?out2), snd (snd ?out2))" by simp
  note t2 = LoggingContext_restores[OF h1 k2 k3 k4 k5]
  from t2 have r2: "fst ?out2 = Inl (PyException ''ValueError'')"
    by (simp add: body_raising_def)
  from t2 g have c2: "get_correlation_id (snd (snd ?out2)) = Some ''A''" by simp
  from t2 g have ef2: "get_extra_fields (snd (snd ?out2)) = [(''k'', ''v'')]" by simp
  from h1 h4 g r inner c tr us ef r2 c2 ef2 show ?thesis by simp
qed

text \<open>
  Claim C2 as stated fails in two ways. It includes prior values that are set but empty:
  after \<^verbatim>\<open>set_correlation_id("")\<close> the getter returns the empty string, and after a scope
  has been entered and left it returns \<^verbatim>\<open>None\<close>. And it speaks of any body and arbitrary
  nesting: when the body enters the same scope object again, the inner entry overwrites the
  saved values, and the outer exit leaves the correlation identifier \<^verbatim>\<open>"X"\<close> and the extra
  field \<^verbatim>\<open>inner\<close> in a store that had \<^verbatim>\<open>"A"\<close> and only the field \<^verbatim>\<open>k\<close> before entry.
\<close>

theorem LoggingContext_restore_counterexample:
  "get_correlation_id (snd (set_correlation_id (Some []) empty_store)) = Some [] \<and>
   get_correlation_id (snd (snd (with_LoggingContext
      (LoggingContext_init (Some ''X'') None None True []) body_set_Y
      (snd (set_correlation_id (Some []) empty_store))))) = None \<and>
   get_correlation_id store_A = Some ''A'' \<and>
   get_extra_fields store_A = [(''k'', ''v'')] \<and>
   get_correlation_id (snd (snd (with_LoggingContext scope_X body_reenter store_A))) = Some ''X'' \<and>
   get_extra_fields (snd (snd (with_LoggingContext scope_X body_reenter store_A))) =
     [(''k'', ''v''), (''inner'', ''1'')]"
  by (simp add: with_LoggingContext_def LoggingContext_enter_def
        LoggingContext_exit_def LoggingContext_init_def body_set_Y_def
        body_reenter_def body_pass_def scope_X_def store_A_def
        empty_store_def initial_store_def
        set_extra_field_def set_transaction_id_def clear_transaction_id_def
        set_user_id_def clear_user_id_def set_correlation_id_def clear_correlation_id_def
        clear_extra_fields_def
        get_correlation_id_def get_transaction_id_def get_user_id_def get_extra_fields_def Let_def)

end
